theory Spec2Isabelle
  imports Main
begin

section \<open>Authentication mode identifiers (internal/broker/authmodes/consts.go)\<close>

text \<open>
  The package declares four string constants. They are the identifiers of the
  authentication methods a provider can support.
\<close>

definition Password :: string where
  "Password = ''password''"

definition Device :: string where
  "Device = ''device_auth''"

definition DeviceQr :: string where
  "DeviceQr = ''device_auth_qr''"

definition NewPassword :: string where
  "NewPassword = ''newpassword''"

text \<open>The constants of the package, in the order of the \<^verbatim>\<open>const\<close> block.\<close>

definition authmodes :: "string list" where
  "authmodes = [Password, Device, DeviceQr, NewPassword]"

section \<open>Golden file options (package testutils)\<close>

text \<open>
  \<^verbatim>\<open>type goldenOptions struct { path string }\<close> and
  \<^verbatim>\<open>type GoldenOption func(*goldenOptions)\<close>: an option mutates the struct it is
  given; here it returns the updated struct.
\<close>

record goldenOptions =
  path :: string

type_synonym GoldenOption = "goldenOptions \<Rightarrow> goldenOptions"

definition WithGoldenPath :: "string \<Rightarrow> GoldenOption" where
  "WithGoldenPath p = (\<lambda>opts. if p \<noteq> [] then opts\<lparr>path := p\<rparr> else opts)"

text \<open>
  \<^verbatim>\<open>for _, f := range options { f(&opts) }\<close>, as in CheckOrUpdateGolden and
  LoadWithUpdateFromGolden: the options are applied in order to the default.
\<close>

definition applyOptions :: "GoldenOption list \<Rightarrow> goldenOptions \<Rightarrow> goldenOptions" where
  "applyOptions options opts = fold (\<lambda>f acc. f acc) options opts"

section \<open>The D-Bus service (internal/dbusservice/dbusservice.go)\<close>

text \<open>
  A Go error value. \<^verbatim>\<open>errors.New\<close> and \<^verbatim>\<open>fmt.Errorf\<close> carry their message; the
  errors of the collaborators (ini, broker, dbus) are opaque values of the same type.
\<close>

datatype error = Error string

text \<open>
  The serve channel is made by \<^verbatim>\<open>make(chan struct{})\<close> in New and nothing is ever
  sent on it: a receive is ready exactly when the channel has been closed.
\<close>

datatype chan = ChanOpen | ChanClosed

text \<open>
  \<^verbatim>\<open>type Service struct { name; broker; serve; disconnect }\<close>. The disconnect
  callback acts on the bus connection, a state \<open>'w\<close> outside the struct.
\<close>

record ('b, 'w) Service =
  name :: string
  broker :: 'b
  serve :: chan
  disconnect :: "'w \<Rightarrow> 'w"

definition Addr :: "('b, 'w) Service \<Rightarrow> string" where
  "Addr s = name s"

text \<open>
  Stop: the \<^verbatim>\<open>select\<close> takes the receive case when the channel is closed and
  does nothing; otherwise the default case closes the channel and calls disconnect.
  The result is the service, the connection state and the returned error.
\<close>

definition Stop :: "('b, 'w) Service \<Rightarrow> 'w \<Rightarrow> ('b, 'w) Service \<times> 'w \<times> error option" where
  "Stop s w =
     (case serve s of
        ChanClosed \<Rightarrow> (s, w, None)
      | ChanOpen \<Rightarrow> (s\<lparr>serve := ChanClosed\<rparr>, disconnect s w, None))"

text \<open>
  The configuration map of parseConfig, \<^verbatim>\<open>map[string]map[string]string\<close>. Reading a
  missing section or a missing key gives the empty string, as indexing a Go map does.
\<close>

type_synonym config = "string \<rightharpoonup> (string \<rightharpoonup> string)"

definition cfgGet :: "config \<Rightarrow> string \<Rightarrow> string \<Rightarrow> string" where
  "cfgGet cfg section key =
     (case cfg section of
        None \<Rightarrow> []
      | Some m \<Rightarrow> (case m key of None \<Rightarrow> [] | Some v \<Rightarrow> v))"

text \<open>\<^verbatim>\<open>broker.Config\<close>, as New fills it.\<close>

record brokerConfig =
  IssuerURL :: string
  ClientID :: string
  HomeBaseDir :: string
  CachePath :: string

text \<open>
  The reply of \<^verbatim>\<open>conn.RequestName\<close>: New only asks whether it is
  \<^verbatim>\<open>dbus.RequestNameReplyPrimaryOwner\<close>.
\<close>

datatype requestNameReply = RequestNameReplyPrimaryOwner | RequestNameReplyOther

text \<open>The calls New makes outside its package, in the order it makes them.\<close>

datatype event =
    EvIniLoad string
  | EvBrokerNew brokerConfig
  | EvGetBus
  | EvExport string string
  | EvRequestName string
  | EvDisconnect

text \<open>
  What dbusservice.go uses and does not declare: the section and key names (constants
  of another file of the package), and the collaborators \<^verbatim>\<open>ini.Load\<close>,
  \<^verbatim>\<open>broker.New\<close>, \<^verbatim>\<open>s.getBus\<close>, \<^verbatim>\<open>conn.Export\<close>, \<^verbatim>\<open>conn.RequestName\<close> and the
  \<^verbatim>\<open>%q\<close> verb of \<^verbatim>\<open>fmt.Errorf\<close>. An ini file is its list of sections, each with
  its list of keys and values.
\<close>

record 'b env =
  authdSection :: string
  dbusNameKey :: string
  dbusObjectKey :: string
  oidcSection :: string
  issuerKey :: string
  clientIDKey :: string
  homeDirKey :: string
  iniLoad :: "string \<Rightarrow> error + (string \<times> (string \<times> string) list) list"
  brokerNew :: "brokerConfig \<Rightarrow> error + 'b"
  getBus :: "error option"
  exportService :: "error option"
  exportIntrospect :: "error option"
  requestName :: "string \<Rightarrow> error + requestNameReply"
  fmtQ :: "string \<Rightarrow> string"

text \<open>
  parseConfig: every section gets a fresh map (a section name met again replaces the
  earlier map), filled with the section's keys in order.
\<close>

definition sectionKeys :: "(string \<times> string) list \<Rightarrow> (string \<rightharpoonup> string)" where
  "sectionKeys keys = fold (\<lambda>(k, v) m. m(k \<mapsto> v)) keys Map.empty"

definition parseConfig :: "'b env \<Rightarrow> string \<Rightarrow> error + config" where
  "parseConfig env cfgPath =
     (case iniLoad env cfgPath of
        Inl err \<Rightarrow> Inl err
      | Inr iniCfg \<Rightarrow>
          Inr (fold (\<lambda>(sname, keys) cfg. cfg(sname \<mapsto> sectionKeys keys)) iniCfg Map.empty))"

text \<open>The callback getBus installs in the service: it closes the bus connection.\<close>

definition busDisconnect :: "event list \<Rightarrow> event list" where
  "busDisconnect log = log @ [EvDisconnect]"

text \<open>
  New. The result is the pair Go returns (the service or nil, the error or nil) and
  the log of outside calls, extended from the log given. The two exports are of the
  service itself and of the introspection data; their arguments in the log are the
  object path and the interface name.
\<close>

definition New ::
  "'b env \<Rightarrow> string \<Rightarrow> string \<Rightarrow> event list \<Rightarrow>
   (('b, event list) Service option \<times> error option) \<times> event list" where
  "New env cfgPath cachePath log0 =
     (let log1 = log0 @ [EvIniLoad cfgPath] in
      case parseConfig env cfgPath of
        Inl err \<Rightarrow> ((None, Some err), log1)
      | Inr cfg \<Rightarrow>
          let iface = ''com.ubuntu.authd.Broker'';
              nm = cfgGet cfg (authdSection env) (dbusNameKey env);
              object = cfgGet cfg (authdSection env) (dbusObjectKey env)
          in
          if nm = [] then
            ((None, Some (Error ''missing required name for dbus service'')), log1)
          else if object = [] then
            ((None, Some (Error ''missing required object path for dbus service'')), log1)
          else
            let bCfg = \<lparr>IssuerURL = cfgGet cfg (oidcSection env) (issuerKey env),
                        ClientID = cfgGet cfg (oidcSection env) (clientIDKey env),
                        HomeBaseDir = cfgGet cfg (oidcSection env) (homeDirKey env),
                        CachePath = cachePath\<rparr>;
                log2 = log1 @ [EvBrokerNew bCfg]
            in
            case brokerNew env bCfg of
              Inl err \<Rightarrow> ((None, Some err), log2)
            | Inr b \<Rightarrow>
                let s = \<lparr>name = nm, broker = b, serve = ChanOpen, disconnect = busDisconnect\<rparr>;
                    log3 = log2 @ [EvGetBus]
                in
                case getBus env of
                  Some err \<Rightarrow> ((None, Some err), log3)
                | None \<Rightarrow>
                    let log4 = log3 @ [EvExport object iface] in
                    case exportService env of
                      Some err \<Rightarrow> ((None, Some err), log4)
                    | None \<Rightarrow>
                        let log5 = log4 @ [EvExport object ''org.freedesktop.DBus.Introspectable''] in
                        case exportIntrospect env of
                          Some err \<Rightarrow> ((None, Some err), log5)
                        | None \<Rightarrow>
                            let log6 = log5 @ [EvRequestName nm] in
                            case requestName env nm of
                              Inl err \<Rightarrow> ((None, Some err), disconnect s log6)
                            | Inr reply \<Rightarrow>
                                if reply \<noteq> RequestNameReplyPrimaryOwner then
                                  ((None, Some (Error (fmtQ env nm @ '' is already taken in the bus''))),
                                   disconnect s log6)
                                else ((Some s, None), log6))"

text \<open>
  A deployment for evaluating New: an ini file with a dbus name and no object path,
  and collaborators that all succeed.
\<close>

definition sampleEnv :: "unit env" where
  "sampleEnv =
     \<lparr>authdSection = ''authd'', dbusNameKey = ''name'', dbusObjectKey = ''object'',
      oidcSection = ''oidc'', issuerKey = ''issuer'', clientIDKey = ''client_id'',
      homeDirKey = ''home_base_dir'',
      iniLoad = (\<lambda>p. Inr [(''authd'', [(''name'', ''com.ubuntu.authd.Oidc'')]),
                             (''oidc'', [(''issuer'', ''https://issuer.example'')])]),
      brokerNew = (\<lambda>c. Inr ()),
      getBus = None, exportService = None, exportIntrospect = None,
      requestName = (\<lambda>n. Inr RequestNameReplyPrimaryOwner),
      fmtQ = (\<lambda>s. s)\<rparr>"

section \<open>The broker core: mode decision, token cache and sessions\<close>

text \<open>
  The broker package is not among the source files: only the ProviderInfoer interface
  (internal/providers/providers.go) and the D-Bus service that calls the broker are.
  The definitions of this section follow the specification, sections 3, 4 and 7.
\<close>

text \<open>
  Modelled from the spec: the error taxonomy of section 7. The broker's own error
  values are missing from the sources.
\<close>

datatype coreError =
    UnknownSession
  | WrongState
  | NoModeAvailable
  | AuthDenied
  | ProviderUnreachable
  | DeviceFlowExpired
  | CacheWriteError
  | ValidationError

text \<open>
  Modelled from the spec: the session purpose of rule 1 of section 4.2, under the
  name the rule gives it. The purposes the broker accepts are missing from the sources.
\<close>

definition loginWithLocalPasswordSetup :: string where
  "loginWithLocalPasswordSetup = ''login-with-local-password-setup''"

text \<open>
  Modelled from the spec: what a deployment fixes (sections 4.1 and 4.2): whether QR
  rendering is enabled, the name under which the endpoints set advertises the
  device-authorization endpoint, and the UI layout each mode is rendered with. All
  three are missing from the sources.
\<close>

record deployment =
  qrEnabled :: bool
  deviceEndpoint :: string
  modeLayout :: "string \<Rightarrow> string"

text \<open>
  Modelled from the spec: ModeDecider.decide of section 4.2, the policy behind
  ProviderInfoer.CurrentAuthenticationModesOffered, whose implementations are missing
  from the sources. The rules are evaluated in the precedence of the spec: (1) after a
  completed step of a login with local password setup, only NewPassword; (2) provider
  unreachable: Password if a token is cached, else nothing and NoModeAvailable;
  (3) provider reachable: Password, then Device if the device-authorization endpoint
  is advertised, then DeviceQr if it is advertised and QR rendering is enabled. The
  step counter grows only when a mode completes with Authenticated, so a positive
  step says that the previous step ended so. The result is the pair Go returns.
\<close>

definition decide ::
  "deployment \<Rightarrow> string \<Rightarrow> bool \<Rightarrow> bool \<Rightarrow> string set \<Rightarrow> int \<Rightarrow>
   string list \<times> coreError option" where
  "decide dep sessionPurpose tokenExists providerReachable endpoints currentStep =
     (if currentStep > 0 \<and> sessionPurpose = loginWithLocalPasswordSetup then
        ([NewPassword], None)
      else if \<not> providerReachable then
        (if tokenExists then ([Password], None) else ([], Some NoModeAvailable))
      else
        ([Password]
           @ (if deviceEndpoint dep \<in> endpoints then [Device] else [])
           @ (if deviceEndpoint dep \<in> endpoints \<and> qrEnabled dep then [DeviceQr] else []),
         None))"

text \<open>
  Modelled from the spec: CachedToken (section 3) and TokenCache (section 4.4), whose
  code is missing from the sources. The cache holds at most one record per username;
  Store replaces the record of a username as a whole.
\<close>

record CachedToken =
  accessToken :: string
  refreshToken :: string
  idToken :: string
  expiry :: int

type_synonym TokenCache = "string \<rightharpoonup> CachedToken"

datatype loadResult = Found CachedToken | NotFound

definition Load :: "TokenCache \<Rightarrow> string \<Rightarrow> loadResult" where
  "Load c u = (case c u of None \<Rightarrow> NotFound | Some t \<Rightarrow> Found t)"

definition Store :: "TokenCache \<Rightarrow> string \<Rightarrow> CachedToken \<Rightarrow> TokenCache" where
  "Store c u t = c(u \<mapsto> t)"

text \<open>A sequence of Store calls, in order.\<close>

definition storeAll :: "TokenCache \<Rightarrow> (string \<times> CachedToken) list \<Rightarrow> TokenCache" where
  "storeAll c ops = fold (\<lambda>(u, t) acc. Store acc u t) ops c"

text \<open>
  Modelled from the spec: Session (section 3) and the broker aggregate, whose code is
  missing from the sources. The last offered modes are kept for mode selection, and
  the cancellation handle is the flag that it has been signalled.
\<close>

datatype sessionState = Created | ModeOffered | Authenticating | Authenticated | Denied | Ended

record Session =
  username :: string
  language :: string
  purpose :: string
  state :: sessionState
  selectedMode :: "string option"
  step :: int
  encryptionKey :: string
  offeredModes :: "string list"
  cancel :: bool

record Broker =
  sessions :: "string \<rightharpoonup> Session"
  cache :: TokenCache

definition emptyBroker :: Broker where
  "emptyBroker = \<lparr>sessions = Map.empty, cache = Map.empty\<rparr>"

text \<open>
  Modelled from the spec: SessionManager.NewSession (section 4.1); the code is missing
  from the sources. The identifier generator is the list of the candidates it would
  produce in turn: a candidate that collides with a live session is passed over, and
  the call fails (None) only when the candidates run out.
\<close>

definition NewSession ::
  "Broker \<Rightarrow> string list \<Rightarrow> string \<Rightarrow> string \<Rightarrow> string \<Rightarrow> string \<Rightarrow>
   Broker \<times> (string \<times> string) option" where
  "NewSession b candidates key user lang sessionPurpose =
     (case find (\<lambda>i. sessions b i = None) candidates of
        None \<Rightarrow> (b, None)
      | Some sid \<Rightarrow>
          (b\<lparr>sessions := (sessions b)(sid \<mapsto>
               \<lparr>username = user, language = lang, purpose = sessionPurpose,
                state = Created, selectedMode = None, step = 0, encryptionKey = key,
                offeredModes = [], cancel = False\<rparr>)\<rparr>,
           Some (sid, key)))"

text \<open>
  Modelled from the spec: SessionManager.GetAuthenticationModes (section 4.1); the code
  is missing from the sources. It fails with UnknownSession for an identifier that is
  not live and with the error of decide; otherwise the decided list is cut down to the
  modes whose layout the caller supports, kept as the last offer, and the session is
  in ModeOffered. Provider reachability and the endpoints are facts of the moment.
\<close>

definition GetAuthenticationModes ::
  "deployment \<Rightarrow> Broker \<Rightarrow> string \<Rightarrow> string list \<Rightarrow> bool \<Rightarrow> string set \<Rightarrow>
   Broker \<times> (coreError + string list)" where
  "GetAuthenticationModes dep b sid supportedUILayouts providerReachable endpoints =
     (case sessions b sid of
        None \<Rightarrow> (b, Inl UnknownSession)
      | Some s \<Rightarrow>
          (case decide dep (purpose s) (cache b (username s) \<noteq> None)
                  providerReachable endpoints (step s) of
             (modes, Some err) \<Rightarrow> (b, Inl err)
           | (modes, None) \<Rightarrow>
               let offered = filter (\<lambda>m. modeLayout dep m \<in> set supportedUILayouts) modes in
               (b\<lparr>sessions := (sessions b)(sid \<mapsto>
                    s\<lparr>state := ModeOffered, offeredModes := offered\<rparr>)\<rparr>,
                Inr offered)))"

text \<open>
  Modelled from the spec: SessionManager.SelectAuthenticationMode (section 4.1); the
  code is missing from the sources. It fails when the session is not live, when its
  state is not ModeOffered, or when the mode is not among the last offer (protocol
  misuse, WrongState); otherwise the session is Authenticating with a fresh
  cancellation handle, and the reply is the layout of the mode.
\<close>

definition SelectAuthenticationMode ::
  "deployment \<Rightarrow> Broker \<Rightarrow> string \<Rightarrow> string \<Rightarrow> Broker \<times> (coreError + string)" where
  "SelectAuthenticationMode dep b sid modeName =
     (case sessions b sid of
        None \<Rightarrow> (b, Inl UnknownSession)
      | Some s \<Rightarrow>
          if state s \<noteq> ModeOffered then (b, Inl WrongState)
          else if modeName \<notin> set (offeredModes s) then (b, Inl WrongState)
          else
            (b\<lparr>sessions := (sessions b)(sid \<mapsto>
                 s\<lparr>state := Authenticating, selectedMode := Some modeName, cancel := False\<rparr>)\<rparr>,
             Inr (modeLayout dep modeName)))"

text \<open>
  Modelled from the spec: what the authentication flow reports to a waiting
  IsAuthenticated call (sections 4.1 and 4.3): still polling, success with the identity
  data and, for a network-backed mode, the token to persist, rejection with its
  reason, or cancellation. The flow engine is missing from the sources.
\<close>

datatype flowProgress =
    StillPolling
  | Succeeded "CachedToken option" string
  | Rejected string
  | Cancelled

text \<open>
  Modelled from the spec: SessionManager.IsAuthenticated (section 4.1); the code is
  missing from the sources. It fails with UnknownSession for an identifier that is not
  live and with WrongState when the session is not Authenticating. Otherwise the reply
  is the access string and its data: "authenticating" leaves the session as it is,
  "granted" moves it to Authenticated, increments the step and persists the token,
  "denied" moves it to Denied, "cancelled" leaves it as it is.
\<close>

definition IsAuthenticated ::
  "Broker \<Rightarrow> string \<Rightarrow> string \<Rightarrow> flowProgress \<Rightarrow>
   Broker \<times> (coreError + string \<times> string)" where
  "IsAuthenticated b sid authData progress =
     (case sessions b sid of
        None \<Rightarrow> (b, Inl UnknownSession)
      | Some s \<Rightarrow>
          if state s \<noteq> Authenticating then (b, Inl WrongState)
          else
            (case progress of
               StillPolling \<Rightarrow> (b, Inr (''authenticating'', []))
             | Succeeded tok identity \<Rightarrow>
                 (b\<lparr>sessions := (sessions b)(sid \<mapsto>
                      s\<lparr>state := Authenticated, step := step s + 1\<rparr>),
                    cache := (case tok of
                                None \<Rightarrow> cache b
                              | Some t \<Rightarrow> Store (cache b) (username s) t)\<rparr>,
                  Inr (''granted'', identity))
             | Rejected reason \<Rightarrow>
                 (b\<lparr>sessions := (sessions b)(sid \<mapsto> s\<lparr>state := Denied\<rparr>)\<rparr>,
                  Inr (''denied'', reason))
             | Cancelled \<Rightarrow> (b, Inr (''cancelled'', []))))"

text \<open>
  Modelled from the spec: SessionManager.CancelIsAuthenticated (section 4.1); the code
  is missing from the sources. It signals the cancellation handle of a session that is
  Authenticating and does nothing when no attempt is in progress.
\<close>

definition CancelIsAuthenticated :: "Broker \<Rightarrow> string \<Rightarrow> Broker \<times> coreError option" where
  "CancelIsAuthenticated b sid =
     (case sessions b sid of
        None \<Rightarrow> (b, Some UnknownSession)
      | Some s \<Rightarrow>
          if state s = Authenticating then
            (b\<lparr>sessions := (sessions b)(sid \<mapsto> s\<lparr>cancel := True\<rparr>)\<rparr>, None)
          else (b, None))"

text \<open>
  Modelled from the spec: SessionManager.EndSession (section 4.1); the code is missing
  from the sources. The session, with its key and its cancellation handle, is
  released: it leaves the table of live sessions. For an identifier that is not live
  the call does nothing and is not an error.
\<close>

definition EndSession :: "Broker \<Rightarrow> string \<Rightarrow> Broker \<times> coreError option" where
  "EndSession b sid =
     (case sessions b sid of
        None \<Rightarrow> (b, None)
      | Some s \<Rightarrow> (b\<lparr>sessions := (sessions b)(sid := None)\<rparr>, None))"

text \<open>
  The calls of section 6 with their arguments, their replies, and the broker run on a
  list of calls, which records every call with its reply.
\<close>

datatype call =
    CallNewSession "string list" string string string string
  | CallGetAuthenticationModes string "string list" bool "string set"
  | CallSelectAuthenticationMode string string
  | CallIsAuthenticated string string flowProgress
  | CallCancelIsAuthenticated string
  | CallEndSession string

datatype reply =
    ReplyNewSession "(string \<times> string) option"
  | ReplyGetAuthenticationModes "coreError + string list"
  | ReplySelectAuthenticationMode "coreError + string"
  | ReplyIsAuthenticated "coreError + string \<times> string"
  | ReplyCancelIsAuthenticated "coreError option"
  | ReplyEndSession "coreError option"

fun apiStep :: "deployment \<Rightarrow> Broker \<Rightarrow> call \<Rightarrow> Broker \<times> reply" where
  "apiStep dep b (CallNewSession candidates key user lang sessionPurpose) =
     (case NewSession b candidates key user lang sessionPurpose of
        (b', r) \<Rightarrow> (b', ReplyNewSession r))"
| "apiStep dep b (CallGetAuthenticationModes sid layouts reachable endpoints) =
     (case GetAuthenticationModes dep b sid layouts reachable endpoints of
        (b', r) \<Rightarrow> (b', ReplyGetAuthenticationModes r))"
| "apiStep dep b (CallSelectAuthenticationMode sid modeName) =
     (case SelectAuthenticationMode dep b sid modeName of
        (b', r) \<Rightarrow> (b', ReplySelectAuthenticationMode r))"
| "apiStep dep b (CallIsAuthenticated sid authData progress) =
     (case IsAuthenticated b sid authData progress of
        (b', r) \<Rightarrow> (b', ReplyIsAuthenticated r))"
| "apiStep dep b (CallCancelIsAuthenticated sid) =
     (case CancelIsAuthenticated b sid of
        (b', r) \<Rightarrow> (b', ReplyCancelIsAuthenticated r))"
| "apiStep dep b (CallEndSession sid) =
     (case EndSession b sid of
        (b', r) \<Rightarrow> (b', ReplyEndSession r))"

fun run ::
  "deployment \<Rightarrow> Broker \<Rightarrow> call list \<Rightarrow> (call \<times> reply) list \<Rightarrow>
   Broker \<times> (call \<times> reply) list" where
  "run dep b [] hist = (b, hist)"
| "run dep b (c # cs) hist =
     (case apiStep dep b c of (b', r) \<Rightarrow> run dep b' cs (hist @ [(c, r)]))"

text \<open>
  A recorded call is a successful mode selection for a session, or an IsAuthenticated
  call of the session that returned a result.
\<close>

fun selectedOk :: "string \<Rightarrow> call \<times> reply \<Rightarrow> bool" where
  "selectedOk sid (CallSelectAuthenticationMode sid' m, ReplySelectAuthenticationMode (Inr l)) =
     (sid' = sid)"
| "selectedOk sid other = False"

fun authResult :: "string \<Rightarrow> call \<times> reply \<Rightarrow> bool" where
  "authResult sid (CallIsAuthenticated sid' d p, ReplyIsAuthenticated (Inr r)) = (sid' = sid)"
| "authResult sid other = False"

text \<open>A deployment and a trace for evaluating the broker: the first scenario of section 8.\<close>

definition sampleDeployment :: deployment where
  "sampleDeployment =
     \<lparr>qrEnabled = True, deviceEndpoint = ''device_authorization_endpoint'',
      modeLayout = (\<lambda>m. if m = DeviceQr then ''qrcode'' else ''form'')\<rparr>"

definition sampleToken :: CachedToken where
  "sampleToken = \<lparr>accessToken = ''at'', refreshToken = ''rt'', idToken = ''it'', expiry = 3600\<rparr>"

definition sampleCalls :: "call list" where
  "sampleCalls =
     [CallNewSession [''S1''] ''key1'' ''alice'' ''en'' ''login'',
      CallGetAuthenticationModes ''S1'' [''form''] True {''device_authorization_endpoint''},
      CallSelectAuthenticationMode ''S1'' ''password'',
      CallIsAuthenticated ''S1'' ''secret'' (Succeeded (Some sampleToken) ''alice'')]"

text \<open>
  The invariant of the run: every live session that is Authenticating has a successful
  mode selection among the recorded calls.
\<close>

definition selectionRecorded :: "Broker \<Rightarrow> (call \<times> reply) list \<Rightarrow> bool" where
  "selectionRecorded b hist =
     (\<forall>sid s. sessions b sid = Some s \<and> state s = Authenticating \<longrightarrow>
        (\<exists>x \<in> set hist. selectedOk sid x))"

text \<open>
  The ordering of a history: every IsAuthenticated result of a session comes after a
  successful mode selection of that session.
\<close>

definition resultsFollowSelection :: "(call \<times> reply) list \<Rightarrow> bool" where
  "resultsFollowSelection hist =
     (\<forall>sid pre x post. hist = pre @ x # post \<and> authResult sid x \<longrightarrow>
        (\<exists>y \<in> set pre. selectedOk sid y))"

text \<open>
  The invariant of the offers: the last offer of every live session holds only
  identifiers of the authmodes package.
\<close>

definition offersWithin :: "Broker \<Rightarrow> bool" where
  "offersWithin b =
     (\<forall>sid s. sessions b sid = Some s \<longrightarrow> set (offeredModes s) \<subseteq> set authmodes)"

text \<open>
  Every mode selection that a history records as accepted names an identifier of the
  authmodes package.
\<close>

definition selectionsWithin :: "(call \<times> reply) list \<Rightarrow> bool" where
  "selectionsWithin hist =
     (\<forall>sid m l. (CallSelectAuthenticationMode sid m, ReplySelectAuthenticationMode (Inr l))
          \<in> set hist \<longrightarrow> m \<in> set authmodes)"

text \<open>The calls of the sample trace before its IsAuthenticated call, with their replies.\<close>

definition sampleHistory :: "(call \<times> reply) list" where
  "sampleHistory =
     [(CallNewSession [''S1''] ''key1'' ''alice'' ''en'' ''login'',
       ReplyNewSession (Some (''S1'', ''key1''))),
      (CallGetAuthenticationModes ''S1'' [''form''] True {''device_authorization_endpoint''},
       ReplyGetAuthenticationModes (Inr [''password'', ''device_auth''])),
      (CallSelectAuthenticationMode ''S1'' ''password'',
       ReplySelectAuthenticationMode (Inr ''form''))]"

section \<open>Properties of the golden file options\<close>

text \<open>
  C10. WithGoldenPath called with the empty string gives an option that leaves the
  options unchanged, so the default path is kept; for every non-empty string p the
  option sets the path to exactly p.
\<close>

theorem WithGoldenPath_sets_nonempty:
  "WithGoldenPath [] opts = opts \<and>
   (p \<noteq> [] \<longrightarrow> path (WithGoldenPath p opts) = p)"
  by (simp add: WithGoldenPath_def)

theorem WithGoldenPath_sets_nonempty_witness:
  "WithGoldenPath [] \<lparr>path = ''testdata/T/golden''\<rparr> = \<lparr>path = ''testdata/T/golden''\<rparr> \<and>
   path (WithGoldenPath ''other/golden'' \<lparr>path = ''testdata/T/golden''\<rparr>) = ''other/golden''"
  using WithGoldenPath_sets_nonempty [of "\<lparr>path = ''testdata/T/golden''\<rparr>" "''other/golden''"]
  by simp

section \<open>Properties of Stop\<close>

text \<open>
  C8. Stop always returns nil. After a first Stop the serve channel is closed, and a
  second Stop changes neither the service nor the connection: the channel is closed
  and disconnect is called only when the channel was not closed yet.
\<close>

theorem Stop_idempotent:
  "snd (snd (Stop s w)) = None \<and>
   serve (fst (Stop s w)) = ChanClosed \<and>
   fst (snd (Stop s w)) = (if serve s = ChanClosed then w else disconnect s w) \<and>
   Stop (fst (Stop s w)) (fst (snd (Stop s w))) = (fst (Stop s w), fst (snd (Stop s w)), None)"
  by (cases "serve s") (simp_all add: Stop_def)

section \<open>Properties of New\<close>

text \<open>
  C9. When the parsed configuration has an empty dbus name or an empty dbus object
  path, New returns a nil service and a non-nil error (the one for the name when the
  name is empty, else the one for the object path), and the only outside call it has
  made is the load of the configuration file: no broker is constructed and no bus
  name is requested.
\<close>

theorem New_missing_name_or_object:
  assumes "parseConfig env cfgPath = Inr cfg"
    and "cfgGet cfg (authdSection env) (dbusNameKey env) = [] \<or>
         cfgGet cfg (authdSection env) (dbusObjectKey env) = []"
  shows "New env cfgPath cachePath log0 =
           ((None,
             Some (Error (if cfgGet cfg (authdSection env) (dbusNameKey env) = []
                          then ''missing required name for dbus service''
                          else ''missing required object path for dbus service''))),
            log0 @ [EvIniLoad cfgPath])"
  using assms by (auto simp: New_def Let_def)

theorem New_missing_name_or_object_witness:
  "New sampleEnv ''/etc/authd/broker.conf'' ''/var/cache/broker'' [] =
     ((None, Some (Error ''missing required object path for dbus service'')),
      [EvIniLoad ''/etc/authd/broker.conf''])"
proof -
  let ?cfg = "[''authd'' \<mapsto> [''name'' \<mapsto> ''com.ubuntu.authd.Oidc''],
               ''oidc'' \<mapsto> [''issuer'' \<mapsto> ''https://issuer.example'']]"
  have c: "parseConfig sampleEnv ''/etc/authd/broker.conf'' = Inr ?cfg"
    by (simp add: parseConfig_def sampleEnv_def sectionKeys_def)
  have n: "cfgGet ?cfg (authdSection sampleEnv) (dbusNameKey sampleEnv) = ''com.ubuntu.authd.Oidc''"
    by (simp add: cfgGet_def sampleEnv_def)
  have e: "cfgGet ?cfg (authdSection sampleEnv) (dbusNameKey sampleEnv) = [] \<or>
           cfgGet ?cfg (authdSection sampleEnv) (dbusObjectKey sampleEnv) = []"
    by (simp add: cfgGet_def sampleEnv_def)
  show ?thesis
    using New_missing_name_or_object [OF c e, of "''/var/cache/broker''" "[]"] n
    by simp
qed

section \<open>Properties of the mode decision\<close>

text \<open>
  The claim C1 as stated, for every input, fails: after a completed step of a login
  with local password setup, rule 1 comes first and the offer is NewPassword alone,
  also with a cached token and an unreachable provider.
\<close>

theorem decide_claim_counterexample:
  "fst (decide sampleDeployment loginWithLocalPasswordSetup True False {} 1) \<noteq> [Password]"
  by (simp add: decide_def NewPassword_def Password_def)

text \<open>
  C1, amended. Whenever rule 1 does not apply (the step is not positive, or the session
  purpose is not the login with local password setup): with a cached token and an
  unreachable provider decide returns exactly the list of Password; with neither it
  returns the empty list and NoModeAvailable; with a reachable provider it returns no
  error and a list that contains Password, contains Device exactly when the endpoints
  advertise the device-authorization endpoint, contains DeviceQr exactly when they do
  and QR rendering is enabled, contains nothing else, and does not depend on
  tokenExists.
\<close>

theorem decide_by_reachability:
  assumes "\<not> (currentStep > 0 \<and> sessionPurpose = loginWithLocalPasswordSetup)"
  shows "(tokenExists \<and> \<not> providerReachable \<longrightarrow>
            decide dep sessionPurpose tokenExists providerReachable endpoints currentStep =
              ([Password], None)) \<and>
         (\<not> tokenExists \<and> \<not> providerReachable \<longrightarrow>
            decide dep sessionPurpose tokenExists providerReachable endpoints currentStep =
              ([], Some NoModeAvailable)) \<and>
         (providerReachable \<longrightarrow>
            snd (decide dep sessionPurpose tokenExists providerReachable endpoints currentStep) = None \<and>
            Password \<in> set (fst (decide dep sessionPurpose tokenExists providerReachable endpoints currentStep)) \<and>
            (Device \<in> set (fst (decide dep sessionPurpose tokenExists providerReachable endpoints currentStep))
               \<longleftrightarrow> deviceEndpoint dep \<in> endpoints) \<and>
            (DeviceQr \<in> set (fst (decide dep sessionPurpose tokenExists providerReachable endpoints currentStep))
               \<longleftrightarrow> deviceEndpoint dep \<in> endpoints \<and> qrEnabled dep) \<and>
            set (fst (decide dep sessionPurpose tokenExists providerReachable endpoints currentStep))
               \<subseteq> {Password, Device, DeviceQr} \<and>
            decide dep sessionPurpose tokenExists providerReachable endpoints currentStep =
              decide dep sessionPurpose (\<not> tokenExists) providerReachable endpoints currentStep)"
  using assms
  by (auto simp: decide_def Password_def Device_def DeviceQr_def)

theorem decide_by_reachability_witness:
  "decide sampleDeployment ''login'' True False {''device_authorization_endpoint''} 0 = ([Password], None) \<and>
   decide sampleDeployment ''login'' False False {''device_authorization_endpoint''} 0 = ([], Some NoModeAvailable) \<and>
   fst (decide sampleDeployment ''login'' False True {''device_authorization_endpoint''} 0) = [Password, Device, DeviceQr]"
proof -
  have h: "\<not> ((0::int) > 0 \<and> ''login'' = loginWithLocalPasswordSetup)" by simp
  have "fst (decide sampleDeployment ''login'' False True {''device_authorization_endpoint''} 0) = [Password, Device, DeviceQr]"
    by (simp add: decide_def sampleDeployment_def)
  then show ?thesis
    using decide_by_reachability [OF h, of True False sampleDeployment "{''device_authorization_endpoint''}"]
          decide_by_reachability [OF h, of False False sampleDeployment "{''device_authorization_endpoint''}"]
    by simp
qed

section \<open>Properties of the token cache\<close>

lemma storeAll_other: "u \<notin> fst ` set ops \<Longrightarrow> storeAll c ops u = c u"
  by (induction ops arbitrary: c) (auto simp: storeAll_def Store_def)

text \<open>
  C4. Load after Store of a token for a username returns that token, also after any
  Store calls for other usernames in between; Load of a username that was never stored
  into an empty cache returns NotFound.
\<close>

theorem Store_Load_roundtrip:
  "Load (Store c u t) u = Found t \<and>
   (u \<notin> fst ` set ops \<longrightarrow> Load (storeAll (Store c u t) ops) u = Found t) \<and>
   (u \<notin> fst ` set ops \<longrightarrow> Load (storeAll Map.empty ops) u = NotFound)"
  by (simp add: Load_def storeAll_other) (simp add: Store_def)

theorem Store_Load_roundtrip_witness:
  "Load (storeAll (Store Map.empty ''alice'' sampleToken) [(''bob'', sampleToken\<lparr>expiry := 7\<rparr>)]) ''alice'' = Found sampleToken \<and>
   Load (storeAll Map.empty [(''bob'', sampleToken)]) ''alice'' = NotFound"
  using Store_Load_roundtrip [of Map.empty "''alice''" sampleToken "[(''bob'', sampleToken\<lparr>expiry := 7\<rparr>)]"]
        Store_Load_roundtrip [of Map.empty "''alice''" sampleToken "[(''bob'', sampleToken)]"]
  by simp

section \<open>Properties of the session manager\<close>

text \<open>
  C5. EndSession returns no error and releases the session, leaving the other
  sessions and the cached tokens as they were; a second EndSession on the same
  identifier returns no error and changes nothing.
\<close>

theorem EndSession_idempotent:
  "snd (EndSession b sid) = None \<and>
   sessions (fst (EndSession b sid)) = (sessions b)(sid := None) \<and>
   cache (fst (EndSession b sid)) = cache b \<and>
   EndSession (fst (EndSession b sid)) sid = (fst (EndSession b sid), None)"
  by (cases "sessions b sid") (auto simp: EndSession_def)

lemma IsAuthenticated_result_state:
  "IsAuthenticated b sid d p = (b', Inr r) \<Longrightarrow>
   \<exists>s. sessions b sid = Some s \<and> state s = Authenticating"
  by (auto simp: IsAuthenticated_def split: option.splits if_splits)

lemma IsAuthenticated_wrong_state:
  "(\<forall>s. sessions b sid = Some s \<longrightarrow> state s \<noteq> Authenticating) \<Longrightarrow>
   fst (IsAuthenticated b sid d p) = b \<and>
   snd (IsAuthenticated b sid d p) \<in> {Inl UnknownSession, Inl WrongState}"
  by (auto simp: IsAuthenticated_def split: option.splits)

lemma selectionRecorded_extend:
  assumes "selectionRecorded b hist"
    and "\<And>sid s. sessions b' sid = Some s \<Longrightarrow> state s = Authenticating \<Longrightarrow>
           (\<exists>s0. sessions b sid = Some s0 \<and> state s0 = Authenticating) \<or> selectedOk sid e"
  shows "selectionRecorded b' (hist @ [e])"
  unfolding selectionRecorded_def
proof (intro allI impI)
  fix sid s
  assume "sessions b' sid = Some s \<and> state s = Authenticating"
  then consider "\<exists>s0. sessions b sid = Some s0 \<and> state s0 = Authenticating" | "selectedOk sid e"
    using assms(2) by blast
  then show "\<exists>x \<in> set (hist @ [e]). selectedOk sid x"
  proof cases
    case 1
    with assms(1) have "\<exists>x \<in> set hist. selectedOk sid x"
      unfolding selectionRecorded_def by blast
    then show ?thesis by auto
  next
    case 2
    then show ?thesis by simp
  qed
qed

lemma apiStep_selectionRecorded:
  assumes "selectionRecorded b hist" and "apiStep dep b c = (b', r)"
  shows "selectionRecorded b' (hist @ [(c, r)])"
proof (rule selectionRecorded_extend [OF assms(1)])
  fix sid s
  assume live: "sessions b' sid = Some s" and auth: "state s = Authenticating"
  show "(\<exists>s0. sessions b sid = Some s0 \<and> state s0 = Authenticating) \<or> selectedOk sid (c, r)"
  proof (cases c)
    case (CallNewSession cands key user lang pur)
    with assms(2) live auth show ?thesis
      by (auto simp: NewSession_def split: option.splits if_splits)
  next
    case (CallGetAuthenticationModes sid' layouts reachable endpoints)
    with assms(2) live auth show ?thesis
      by (auto simp: GetAuthenticationModes_def Let_def
               split: option.splits if_splits prod.splits)
  next
    case (CallSelectAuthenticationMode sid' m)
    with assms(2) live auth show ?thesis
      by (auto simp: SelectAuthenticationMode_def split: option.splits if_splits)
  next
    case (CallIsAuthenticated sid' d p)
    with assms(2) live auth show ?thesis
      by (auto simp: IsAuthenticated_def
               split: option.splits if_splits flowProgress.splits)
  next
    case (CallCancelIsAuthenticated sid')
    with assms(2) live auth show ?thesis
      by (auto simp: CancelIsAuthenticated_def split: option.splits if_splits)
  next
    case (CallEndSession sid')
    with assms(2) live auth show ?thesis
      by (auto simp: EndSession_def split: option.splits if_splits)
  qed
qed

lemma apiStep_authResult:
  assumes "apiStep dep b c = (b', r)" and "authResult sid (c, r)"
  shows "\<exists>s. sessions b sid = Some s \<and> state s = Authenticating"
proof (cases c)
  case (CallIsAuthenticated sid' d p)
  with assms obtain res where "r = ReplyIsAuthenticated (Inr res)" and "sid' = sid"
    by (cases r) (auto split: sum.splits elim: authResult.elims)
  with assms CallIsAuthenticated show ?thesis
    by (auto dest: IsAuthenticated_result_state split: prod.splits)
qed (use assms in auto)

lemma apiStep_resultsFollowSelection:
  assumes "selectionRecorded b hist" and "resultsFollowSelection hist"
    and "apiStep dep b c = (b', r)"
  shows "resultsFollowSelection (hist @ [(c, r)])"
  unfolding resultsFollowSelection_def
proof (intro allI impI)
  fix sid pre x post
  assume h: "hist @ [(c, r)] = pre @ x # post \<and> authResult sid x"
  show "\<exists>y \<in> set pre. selectedOk sid y"
  proof (cases post rule: rev_cases)
    case Nil
    with h have "pre = hist" and "x = (c, r)" by auto
    with h assms(3) have "\<exists>s. sessions b sid = Some s \<and> state s = Authenticating"
      by (auto dest: apiStep_authResult)
    with assms(1) \<open>pre = hist\<close> show ?thesis
      by (auto simp: selectionRecorded_def)
  next
    case (snoc post' z)
    with h have "hist = pre @ x # post'" by auto
    with h assms(2) show ?thesis
      unfolding resultsFollowSelection_def by blast
  qed
qed

lemma run_invariants:
  "selectionRecorded b hist \<Longrightarrow> resultsFollowSelection hist \<Longrightarrow>
   run dep b cs hist = (b', hist') \<Longrightarrow>
   selectionRecorded b' hist' \<and> resultsFollowSelection hist'"
proof (induction cs arbitrary: b hist)
  case Nil
  then show ?case by simp
next
  case (Cons c cs)
  obtain b1 r where s: "apiStep dep b c = (b1, r)" by (cases "apiStep dep b c")
  with Cons.prems have "run dep b1 cs (hist @ [(c, r)]) = (b', hist')" by simp
  moreover have "selectionRecorded b1 (hist @ [(c, r)])"
    using Cons.prems(1) s by (rule apiStep_selectionRecorded)
  moreover have "resultsFollowSelection (hist @ [(c, r)])"
    using Cons.prems(1,2) s by (rule apiStep_resultsFollowSelection)
  ultimately show ?case using Cons.IH by blast
qed

text \<open>
  C2. In every run of the broker from its empty state, an IsAuthenticated call of a
  session that returns a result comes after a successful SelectAuthenticationMode call
  of that session; and, in any broker state, IsAuthenticated on a session that is not
  Authenticating (or not live) changes nothing and fails with UnknownSession or
  WrongState.
\<close>

theorem IsAuthenticated_after_selection:
  assumes "run dep emptyBroker cs [] = (b, hist)"
    and "hist = pre @ (CallIsAuthenticated sid d p, ReplyIsAuthenticated (Inr res)) # post"
  shows "(\<exists>y \<in> set pre. selectedOk sid y) \<and>
         (\<forall>b0 sid0 d0 p0.
            (\<forall>s. sessions b0 sid0 = Some s \<longrightarrow> state s \<noteq> Authenticating) \<longrightarrow>
            fst (IsAuthenticated b0 sid0 d0 p0) = b0 \<and>
            snd (IsAuthenticated b0 sid0 d0 p0) \<in> {Inl UnknownSession, Inl WrongState})"
proof -
  have "selectionRecorded emptyBroker []"
    by (simp add: selectionRecorded_def emptyBroker_def)
  moreover have "resultsFollowSelection []"
    by (simp add: resultsFollowSelection_def)
  ultimately have "resultsFollowSelection hist"
    using assms(1) run_invariants by blast
  moreover have "authResult sid (CallIsAuthenticated sid d p, ReplyIsAuthenticated (Inr res))"
    by simp
  ultimately have "\<exists>y \<in> set pre. selectedOk sid y"
    using assms(2) unfolding resultsFollowSelection_def by blast
  then show ?thesis
    using IsAuthenticated_wrong_state by blast
qed

lemma sample_run:
  "snd (run sampleDeployment emptyBroker sampleCalls []) =
     sampleHistory @
       [(CallIsAuthenticated ''S1'' ''secret'' (Succeeded (Some sampleToken) ''alice''),
         ReplyIsAuthenticated (Inr (''granted'', ''alice'')))]"
  by (simp add: sampleCalls_def sampleHistory_def sampleDeployment_def emptyBroker_def
        NewSession_def GetAuthenticationModes_def SelectAuthenticationMode_def
        IsAuthenticated_def decide_def Password_def Device_def DeviceQr_def NewPassword_def
        loginWithLocalPasswordSetup_def Store_def Let_def)

theorem IsAuthenticated_after_selection_witness:
  "snd (run sampleDeployment emptyBroker sampleCalls []) =
     sampleHistory @
       [(CallIsAuthenticated ''S1'' ''secret'' (Succeeded (Some sampleToken) ''alice''),
         ReplyIsAuthenticated (Inr (''granted'', ''alice'')))] \<and>
   (\<exists>y \<in> set sampleHistory. selectedOk ''S1'' y) \<and>
   snd (IsAuthenticated emptyBroker ''S1'' ''secret'' StillPolling) \<in>
     {Inl UnknownSession, Inl WrongState}"
proof -
  have r: "run sampleDeployment emptyBroker sampleCalls [] =
             (fst (run sampleDeployment emptyBroker sampleCalls []),
              snd (run sampleDeployment emptyBroker sampleCalls []))"
    by simp
  have e: "\<forall>s. sessions emptyBroker ''S1'' = Some s \<longrightarrow> state s \<noteq> Authenticating"
    by (simp add: emptyBroker_def)
  show ?thesis
    using IsAuthenticated_after_selection [OF r sample_run] e sample_run
    by blast
qed

section \<open>Properties of the mode identifiers\<close>

lemma decide_within: "set (fst (decide dep p t r e s)) \<subseteq> set authmodes"
  by (auto simp: decide_def authmodes_def)

lemma GetAuthenticationModes_within:
  "GetAuthenticationModes dep b sid layouts r e = (b', Inr modes) \<Longrightarrow>
   set modes \<subseteq> set authmodes"
proof -
  assume a: "GetAuthenticationModes dep b sid layouts r e = (b', Inr modes)"
  then obtain s where s: "sessions b sid = Some s"
    by (auto simp: GetAuthenticationModes_def split: option.splits)
  let ?d = "decide dep (purpose s) (cache b (username s) \<noteq> None) r e (step s)"
  from a s have "modes = filter (\<lambda>m. modeLayout dep m \<in> set layouts) (fst ?d)"
    by (auto simp: GetAuthenticationModes_def Let_def split: prod.splits option.splits)
  then have "set modes \<subseteq> set (fst ?d)" by auto
  with decide_within show ?thesis by blast
qed

lemma offersWithin_extend:
  assumes "offersWithin b"
    and "\<And>sid s. sessions b' sid = Some s \<Longrightarrow>
           (\<exists>s0. sessions b sid = Some s0 \<and> offeredModes s = offeredModes s0) \<or>
           set (offeredModes s) \<subseteq> set authmodes"
  shows "offersWithin b'"
  unfolding offersWithin_def
proof (intro allI impI)
  fix sid s
  assume "sessions b' sid = Some s"
  then consider s0 where "sessions b sid = Some s0" and "offeredModes s = offeredModes s0"
    | "set (offeredModes s) \<subseteq> set authmodes"
    using assms(2) by blast
  then show "set (offeredModes s) \<subseteq> set authmodes"
  proof cases
    case 1
    with assms(1) show ?thesis unfolding offersWithin_def by metis
  next
    case 2
    then show ?thesis .
  qed
qed

lemma apiStep_offersWithin:
  assumes "offersWithin b" and "apiStep dep b c = (b', r)"
  shows "offersWithin b'"
proof (rule offersWithin_extend [OF assms(1)])
  fix sid s
  assume live: "sessions b' sid = Some s"
  show "(\<exists>s0. sessions b sid = Some s0 \<and> offeredModes s = offeredModes s0) \<or>
        set (offeredModes s) \<subseteq> set authmodes"
  proof (cases c)
    case (CallNewSession cands key user lang pur)
    with assms(2) live show ?thesis
      by (auto simp: NewSession_def split: option.splits if_splits)
  next
    case (CallGetAuthenticationModes sid' layouts reachable endpoints)
    obtain b1 r1 where g: "GetAuthenticationModes dep b sid' layouts reachable endpoints = (b1, r1)"
      by (cases "GetAuthenticationModes dep b sid' layouts reachable endpoints")
    with assms(2) CallGetAuthenticationModes have b1: "b1 = b'" by simp
    show ?thesis
    proof (cases r1)
      case (Inl err)
      with g have "b1 = b"
        by (auto simp: GetAuthenticationModes_def Let_def split: option.splits prod.splits)
      with b1 live show ?thesis by simp
    next
      case (Inr modes)
      with g have w: "set modes \<subseteq> set authmodes"
        by (auto dest: GetAuthenticationModes_within)
      from g Inr obtain s1 where "sessions b sid' = Some s1"
        and "b1 = b\<lparr>sessions := (sessions b)(sid' \<mapsto>
                      s1\<lparr>state := ModeOffered, offeredModes := modes\<rparr>)\<rparr>"
        by (auto simp: GetAuthenticationModes_def Let_def split: option.splits prod.splits)
      note upd = this
      show ?thesis
      proof (cases "sid = sid'")
        case True
        with upd b1 live have "offeredModes s = modes" by auto
        with w show ?thesis by simp
      next
        case False
        with upd b1 live show ?thesis by auto
      qed
    qed
  next
    case (CallSelectAuthenticationMode sid' m)
    with assms(2) live show ?thesis
      by (auto simp: SelectAuthenticationMode_def split: option.splits if_splits)
  next
    case (CallIsAuthenticated sid' d p)
    with assms(2) live show ?thesis
      by (auto simp: IsAuthenticated_def
               split: option.splits if_splits flowProgress.splits)
  next
    case (CallCancelIsAuthenticated sid')
    with assms(2) live show ?thesis
      by (auto simp: CancelIsAuthenticated_def split: option.splits if_splits)
  next
    case (CallEndSession sid')
    with assms(2) live show ?thesis
      by (auto simp: EndSession_def split: option.splits if_splits)
  qed
qed

lemma SelectAuthenticationMode_accepts:
  "offersWithin b \<Longrightarrow> SelectAuthenticationMode dep b sid m = (b', Inr l) \<Longrightarrow>
   m \<in> set authmodes"
  by (auto simp: offersWithin_def SelectAuthenticationMode_def split: option.splits if_splits)

lemma apiStep_selectionsWithin:
  assumes "offersWithin b" and "selectionsWithin hist" and "apiStep dep b c = (b', r)"
  shows "selectionsWithin (hist @ [(c, r)])"
  unfolding selectionsWithin_def
proof (intro allI impI)
  fix sid m l
  assume "(CallSelectAuthenticationMode sid m, ReplySelectAuthenticationMode (Inr l))
            \<in> set (hist @ [(c, r)])"
  then consider "(CallSelectAuthenticationMode sid m, ReplySelectAuthenticationMode (Inr l)) \<in> set hist"
    | "c = CallSelectAuthenticationMode sid m" and "r = ReplySelectAuthenticationMode (Inr l)"
    by auto
  then show "m \<in> set authmodes"
  proof cases
    case 1
    with assms(2) show ?thesis unfolding selectionsWithin_def by blast
  next
    case 2
    with assms(3) have "\<exists>b''. SelectAuthenticationMode dep b sid m = (b'', Inr l)"
      by (auto split: prod.splits)
    with assms(1) show ?thesis by (auto dest: SelectAuthenticationMode_accepts)
  qed
qed

lemma run_within:
  "offersWithin b \<Longrightarrow> selectionsWithin hist \<Longrightarrow> run dep b cs hist = (b', hist') \<Longrightarrow>
   offersWithin b' \<and> selectionsWithin hist'"
proof (induction cs arbitrary: b hist)
  case Nil
  then show ?case by simp
next
  case (Cons c cs)
  obtain b1 r where s: "apiStep dep b c = (b1, r)" by (cases "apiStep dep b c")
  with Cons.prems have "run dep b1 cs (hist @ [(c, r)]) = (b', hist')" by simp
  moreover have "offersWithin b1"
    using Cons.prems(1) s by (rule apiStep_offersWithin)
  moreover have "selectionsWithin (hist @ [(c, r)])"
    using Cons.prems(1,2) s by (rule apiStep_selectionsWithin)
  ultimately show ?case using Cons.IH by blast
qed

lemma authmodes_set:
  "set authmodes = {''password'', ''device_auth'', ''device_auth_qr'', ''newpassword''}"
  by (simp add: authmodes_def Password_def Device_def DeviceQr_def NewPassword_def)

text \<open>
  C3. Each of the four named constants (consts.go) equals its string, the identifiers
  of the package are exactly these four strings, and they are pairwise different.
  Every mode name the broker offers is one of the four: each entry of the list decide
  returns, and each entry of a list GetAuthenticationModes replies with, in any broker
  state. Every mode name the broker accepts is one of the four: in every run of the
  broker from its empty state, a SelectAuthenticationMode call that succeeded named
  one of them. The broker side is the one modelled from the specification.
\<close>

theorem authmodes_fixed_strings:
  "Password = ''password'' \<and> Device = ''device_auth'' \<and>
   DeviceQr = ''device_auth_qr'' \<and> NewPassword = ''newpassword'' \<and>
   set authmodes = {''password'', ''device_auth'', ''device_auth_qr'', ''newpassword''} \<and>
   distinct authmodes \<and>
   set (fst (decide dep sessionPurpose tokenExists providerReachable endpoints currentStep))
     \<subseteq> {''password'', ''device_auth'', ''device_auth_qr'', ''newpassword''} \<and>
   (\<forall>modes.
      snd (GetAuthenticationModes dep b0 sid0 layouts providerReachable endpoints) = Inr modes \<longrightarrow>
      set modes \<subseteq> {''password'', ''device_auth'', ''device_auth_qr'', ''newpassword''}) \<and>
   (\<forall>b hist sid m l.
      run dep emptyBroker cs [] = (b, hist) \<and>
      (CallSelectAuthenticationMode sid m, ReplySelectAuthenticationMode (Inr l)) \<in> set hist \<longrightarrow>
      m \<in> {''password'', ''device_auth'', ''device_auth_qr'', ''newpassword''})"
proof -
  have names: "Password = ''password'' \<and> Device = ''device_auth'' \<and>
      DeviceQr = ''device_auth_qr'' \<and> NewPassword = ''newpassword'' \<and> distinct authmodes"
    by (simp add: authmodes_def Password_def Device_def DeviceQr_def NewPassword_def)
  have offers: "set (fst (decide dep sessionPurpose tokenExists providerReachable endpoints currentStep))
      \<subseteq> {''password'', ''device_auth'', ''device_auth_qr'', ''newpassword''}"
    using decide_within [of dep sessionPurpose tokenExists providerReachable endpoints currentStep]
    by (simp only: authmodes_set)
  have offered: "\<forall>modes.
      snd (GetAuthenticationModes dep b0 sid0 layouts providerReachable endpoints) = Inr modes \<longrightarrow>
      set modes \<subseteq> {''password'', ''device_auth'', ''device_auth_qr'', ''newpassword''}"
  proof (intro allI impI)
    fix modes
    assume "snd (GetAuthenticationModes dep b0 sid0 layouts providerReachable endpoints) = Inr modes"
    then have "GetAuthenticationModes dep b0 sid0 layouts providerReachable endpoints =
        (fst (GetAuthenticationModes dep b0 sid0 layouts providerReachable endpoints), Inr modes)"
      by (metis prod.collapse)
    then have "set modes \<subseteq> set authmodes" by (rule GetAuthenticationModes_within)
    then show "set modes \<subseteq> {''password'', ''device_auth'', ''device_auth_qr'', ''newpassword''}"
      by (simp only: authmodes_set)
  qed
  have accepts: "\<forall>b hist sid m l.
      run dep emptyBroker cs [] = (b, hist) \<and>
      (CallSelectAuthenticationMode sid m, ReplySelectAuthenticationMode (Inr l)) \<in> set hist \<longrightarrow>
      m \<in> {''password'', ''device_auth'', ''device_auth_qr'', ''newpassword''}"
  proof (intro allI impI)
    fix b hist sid m l
    assume a: "run dep emptyBroker cs [] = (b, hist) \<and>
      (CallSelectAuthenticationMode sid m, ReplySelectAuthenticationMode (Inr l)) \<in> set hist"
    have "offersWithin emptyBroker" by (simp add: offersWithin_def emptyBroker_def)
    moreover have "selectionsWithin []" by (simp add: selectionsWithin_def)
    ultimately have "selectionsWithin hist" using a run_within by blast
    with a have "m \<in> set authmodes" unfolding selectionsWithin_def by blast
    then show "m \<in> {''password'', ''device_auth'', ''device_auth_qr'', ''newpassword''}"
      by (simp only: authmodes_set)
  qed
  from names authmodes_set offers offered accepts show ?thesis by blast
qed

lemma sample_offer:
  "snd (GetAuthenticationModes sampleDeployment
          (fst (NewSession emptyBroker [''S1''] ''key1'' ''alice'' ''en'' ''login''))
          ''S1'' [''form''] True {''device_authorization_endpoint''}) =
     Inr [''password'', ''device_auth'']"
  by (simp add: sampleDeployment_def emptyBroker_def NewSession_def GetAuthenticationModes_def
        decide_def Password_def Device_def DeviceQr_def NewPassword_def
        loginWithLocalPasswordSetup_def Let_def)

theorem authmodes_fixed_strings_witness:
  "snd (GetAuthenticationModes sampleDeployment
          (fst (NewSession emptyBroker [''S1''] ''key1'' ''alice'' ''en'' ''login''))
          ''S1'' [''form''] True {''device_authorization_endpoint''}) =
     Inr [''password'', ''device_auth''] \<and>
   set [''password'', ''device_auth'']
     \<subseteq> {''password'', ''device_auth'', ''device_auth_qr'', ''newpassword''} \<and>
   (CallSelectAuthenticationMode ''S1'' ''password'', ReplySelectAuthenticationMode (Inr ''form''))
     \<in> set (snd (run sampleDeployment emptyBroker sampleCalls [])) \<and>
   ''password'' \<in> {''password'', ''device_auth'', ''device_auth_qr'', ''newpassword''}"
proof -
  have r: "run sampleDeployment emptyBroker sampleCalls [] =
             (fst (run sampleDeployment emptyBroker sampleCalls []),
              snd (run sampleDeployment emptyBroker sampleCalls []))"
    by simp
  have h: "(CallSelectAuthenticationMode ''S1'' ''password'',
            ReplySelectAuthenticationMode (Inr ''form''))
           \<in> set (snd (run sampleDeployment emptyBroker sampleCalls []))"
    by (simp add: sample_run sampleHistory_def)
  show ?thesis
    using authmodes_fixed_strings [of sampleDeployment "''login''" False True
            "{''device_authorization_endpoint''}" 0
            "fst (NewSession emptyBroker [''S1''] ''key1'' ''alice'' ''en'' ''login'')"
            "''S1''" "[''form'']" sampleCalls]
          sample_offer r h
    by blast
qed

end
